theory Spec2Isabelle
  imports Main "HOL-Library.Sublist"
begin

section \<open>fmp.py: concurrent font compilation with fontmake\<close>

text \<open>
  A shallow embedding of \<^verbatim>\<open>src/fmp.py\<close>. The script has two functions, \<^verbatim>\<open>main\<close> and
  \<^verbatim>\<open>build_fonts\<close>, and the \<^verbatim>\<open>__main__\<close> block that calls \<^verbatim>\<open>main(sys.argv[1:])\<close>.
  Both functions only act on the outside world, so a statement of the script is a
  function from a state to a result and a new state. The state holds everything the
  script does that can be observed, in the order it happens, and whether the
  module-level \<^verbatim>\<open>lock\<close> is held.

  A Python string is a \<open>string\<close>, one \<open>char\<close> per character (paths of characters
  below 256).
\<close>

subsection \<open>Exceptions\<close>

text \<open>
  \<open>Error cls msg\<close> is an instance of the class \<open>cls\<close>, a subclass of \<^verbatim>\<open>Exception\<close>,
  whose \<^verbatim>\<open>str\<close> is \<open>msg\<close>. \<open>SystemExit n\<close> is what \<^verbatim>\<open>sys.exit(n)\<close> raises: a
  \<^verbatim>\<open>BaseException\<close> that is not an \<^verbatim>\<open>Exception\<close>, so that \<^verbatim>\<open>except Exception\<close> lets
  it pass.
\<close>

datatype py_exc = Error string string | SystemExit nat

fun is_Exception :: "py_exc \<Rightarrow> bool" where
  "is_Exception (Error cls msg) = True"
| "is_Exception (SystemExit n) = False"

definition IndexError :: py_exc where
  "IndexError = Error ''IndexError'' ''list index out of range''"

definition OSError :: py_exc where
  "OSError = Error ''OSError'' ''write failed''"

definition ValueError :: "string \<Rightarrow> py_exc" where
  "ValueError msg = Error ''ValueError'' msg"

subsection \<open>Decimal numerals: \<^verbatim>\<open>str\<close> of a number\<close>

definition digit :: "nat \<Rightarrow> char" where
  "digit d = char_of (48 + d)"

fun str_nat :: "nat \<Rightarrow> string" where
  "str_nat n = (if n < 10 then [digit n] else str_nat (n div 10) @ [digit (n mod 10)])"

declare str_nat.simps [simp del]

fun str :: "py_exc \<Rightarrow> string" where
  "str (Error cls msg) = msg"
| "str (SystemExit n) = str_nat n"

subsection \<open>The observable events, the state and the host\<close>

datatype event =
    Stdout string       \<comment> \<open>\<^verbatim>\<open>print(s)\<close>: a line on standard output\<close>
  | Stderr string       \<comment> \<open>\<^verbatim>\<open>sys.stderr.write(s)\<close>\<close>
  | Flush               \<comment> \<open>\<^verbatim>\<open>sys.stdout.flush()\<close>\<close>
  | Traceback py_exc    \<comment> \<open>a traceback of the exception, on standard error\<close>
  | Acquire             \<comment> \<open>\<^verbatim>\<open>lock.acquire()\<close> returned\<close>
  | Release             \<comment> \<open>\<^verbatim>\<open>lock.release()\<close>\<close>
  | Compile string      \<comment> \<open>\<^verbatim>\<open>FontProject().run_from_ufos(path, output=BUILD_FILE_TYPE)\<close> was called\<close>
  | PoolCreate nat      \<comment> \<open>\<^verbatim>\<open>Pool(n)\<close> created a pool of n worker processes\<close>

record state =
  out :: "event list"
  lock_held :: bool

text \<open>The state in which the interpreter starts the script: \<^verbatim>\<open>lock = Lock()\<close> is free.\<close>

definition init :: state where
  "init = \<lparr>out = [], lock_held = False\<rparr>"

text \<open>
  The host: the file system (\<^verbatim>\<open>os.path.isdir\<close>), the number of cores
  (\<^verbatim>\<open>multiprocessing.cpu_count()\<close>), the compiler (the body of the \<^verbatim>\<open>try\<close> in \<^verbatim>\<open>build_fonts\<close>:
  \<open>None\<close> when it completes, \<open>Some e\<close> when it raises \<open>e\<close>), and the output streams:
  \<open>stream_fails es\<close> tells whether a write fails (raises \<^verbatim>\<open>OSError\<close>, as on a closed pipe or
  a full disk) once the events so far are \<open>es\<close>.
\<close>

record world =
  isdir :: "string \<Rightarrow> bool"
  cpu_count :: nat
  run_from_ufos :: "string \<Rightarrow> py_exc option"
  stream_fails :: "event list \<Rightarrow> bool"

datatype result =
    Return              \<comment> \<open>the statement completed (a function returned \<^verbatim>\<open>None\<close>)\<close>
  | Raise py_exc        \<comment> \<open>an exception is propagating\<close>
  | Hang                \<comment> \<open>blocked for ever on the lock\<close>

type_synonym prog = "state \<Rightarrow> result \<times> state"

subsection \<open>Statements\<close>

definition skip :: prog where
  "skip s = (Return, s)"

definition raise :: "py_exc \<Rightarrow> prog" where
  "raise e s = (Raise e, s)"

text \<open>A sequence of statements: the first one that does not complete ends the sequence.\<close>

fun block :: "prog list \<Rightarrow> prog" where
  "block [] s = (Return, s)"
| "block (m # ms) s =
     (case m s of (r, s') \<Rightarrow>
        (case r of Return \<Rightarrow> block ms s' | Raise e \<Rightarrow> (Raise e, s') | Hang \<Rightarrow> (Hang, s')))"

text \<open>\<^verbatim>\<open>for x in xs: body(x)\<close>\<close>

fun for_each :: "'a list \<Rightarrow> ('a \<Rightarrow> prog) \<Rightarrow> prog" where
  "for_each [] body s = (Return, s)"
| "for_each (x # xs) body s =
     (case body x s of (r, s') \<Rightarrow>
        (case r of Return \<Rightarrow> for_each xs body s' | Raise e \<Rightarrow> (Raise e, s') | Hang \<Rightarrow> (Hang, s')))"

text \<open>\<^verbatim>\<open>try: body  except Exception as e: handler(e)\<close>\<close>

definition try_except_Exception :: "prog \<Rightarrow> (py_exc \<Rightarrow> prog) \<Rightarrow> prog" where
  "try_except_Exception body handler s =
     (case body s of (r, s') \<Rightarrow>
        (case r of
           Return \<Rightarrow> (Return, s')
         | Raise e \<Rightarrow> (if is_Exception e then handler e s' else (Raise e, s'))
         | Hang \<Rightarrow> (Hang, s')))"

text \<open>Every write to a stream goes through \<open>emit\<close>: it appends the event, or raises.\<close>

definition emit :: "world \<Rightarrow> event \<Rightarrow> prog" where
  "emit w e s =
     (if stream_fails w (out s) then (Raise OSError, s)
      else (Return, s\<lparr>out := out s @ [e]\<rparr>))"

definition print :: "world \<Rightarrow> string \<Rightarrow> prog" where
  "print w line = emit w (Stdout line)"

definition stderr_write :: "world \<Rightarrow> string \<Rightarrow> prog" where
  "stderr_write w text = emit w (Stderr text)"

definition stdout_flush :: "world \<Rightarrow> prog" where
  "stdout_flush w = emit w Flush"

definition print_exc :: "world \<Rightarrow> py_exc \<Rightarrow> prog" where
  "print_exc w e = emit w (Traceback e)"

definition sys_exit :: "nat \<Rightarrow> prog" where
  "sys_exit n = raise (SystemExit n)"

text \<open>
  \<^verbatim>\<open>multiprocessing.Lock\<close> is not reentrant: acquiring a held lock blocks. Releasing a
  lock that is not held raises \<^verbatim>\<open>ValueError\<close>.
\<close>

definition lock_acquire :: prog where
  "lock_acquire s =
     (if lock_held s then (Hang, s)
      else (Return, s\<lparr>out := out s @ [Acquire], lock_held := True\<rparr>))"

definition lock_release :: prog where
  "lock_release s =
     (if lock_held s then (Return, s\<lparr>out := out s @ [Release], lock_held := False\<rparr>)
      else (Raise (ValueError ''semaphore or lock released too many times''), s))"

text \<open>
  The two statements of the \<^verbatim>\<open>try\<close> body of \<^verbatim>\<open>build_fonts\<close>, which call into fontmake:
  the call is recorded, then the host decides whether it completes.
\<close>

definition call_run_from_ufos :: "world \<Rightarrow> string \<Rightarrow> prog" where
  "call_run_from_ufos w ufo_path s =
     (case run_from_ufos w ufo_path of
        None \<Rightarrow> (Return, s\<lparr>out := out s @ [Compile ufo_path]\<rparr>)
      | Some e \<Rightarrow> (Raise e, s\<lparr>out := out s @ [Compile ufo_path]\<rparr>))"

text \<open>\<^verbatim>\<open>Pool(n)\<close> raises \<^verbatim>\<open>ValueError\<close> when \<open>n < 1\<close>.\<close>

definition Pool :: "nat \<Rightarrow> prog" where
  "Pool n s =
     (if n < 1 then (Raise (ValueError ''Number of processes must be at least 1''), s)
      else (Return, s\<lparr>out := out s @ [PoolCreate n]\<rparr>))"

text \<open>
  \<^verbatim>\<open>p.map(f, xs)\<close>, in the schedule where the jobs run one after the other in the order
  of the list. An exception that leaves a job is raised by \<^verbatim>\<open>map\<close> in the parent.
\<close>

definition pool_map :: "(string \<Rightarrow> prog) \<Rightarrow> string list \<Rightarrow> prog" where
  "pool_map f xs = for_each xs f"

subsection \<open>Module constants\<close>

definition linesep :: string where
  "linesep = [CHR 0x0A]"

definition quote :: string where
  "quote = [CHR 0x27]"

definition PROCESSES :: nat where
  "PROCESSES = 0"

definition VERSION_NUMBER :: string where
  "VERSION_NUMBER = ''1.0.0''"

definition VERSION :: string where
  "VERSION = ''fontmake-mp v'' @ VERSION_NUMBER"

definition USAGE :: string where
  "USAGE = ''[./fmp.py|fontmake-mp] (--ttf|--otf) [UFO file path 1] (UFO file path ...)''"

definition HELP :: string where
  "HELP = concat (map (\<lambda>l. l @ linesep)
     ['''',
      ''==================================================================='',
      '' fontmake-mp'',
      ''   Parallel font compilation from UFO source files with fontmake'',
      ''   '',
      ''   Copyright 2018 Christopher Simpkins'',
      ''   MIT License'',
      '''',
      ''   Source Repository: https://github.com/source-foundry/fontmake-mp'',
      ''===================================================================='',
      '''',
      ''fontmake-mp compiles *.otf and/or *.ttf font binaries from UFO source files in parallel.'',
      '''',
      ''Execute fontmake-mp with the fmp.py Python script (located in the root of repository) or the fontmake-mp executable (located in the repository releases).'',
      '''',
      ''Usage:'',
      ''  Execution of Python script:'',
      ''     $ python fmp.py (--ttf|--otf) [UFO file path 1] (UFO file path ...)'',
      ''     '',
      ''  Execution of executable file installed on system PATH'',
      ''     $ fontmake-mp (--ttf|--otf) [UFO file path 1] (UFO file path ...)'',
      ''     '',
      ''Options:'',
      ''  --otf          Build *.otf files only (optional, default=*.otf AND *.ttf)'',
      ''  --ttf          Build *.ttf files only (optional, default=*.otf AND *.ttf)'',
      ''  '',
      ''  -h, --help     Display help text'',
      ''      --usage    Display application usage'',
      ''  -v, --version  Display application version'',
      '''',
      ''Fonts are compiled in the working directory on the directory path(s) master_otf and/or master_ttf.''])"

subsection \<open>\<^verbatim>\<open>build_fonts\<close>\<close>

definition build_fonts :: "world \<Rightarrow> string \<Rightarrow> prog" where
  "build_fonts w ufo_path =
     try_except_Exception
       (call_run_from_ufos w ufo_path)
       (\<lambda>e. block
          [lock_acquire,
           print w '' '',
           print w (''[ERROR] The fontmake compile for '' @ ufo_path
                    @ '' failed with the following error'' @ '':'' @ linesep),
           stdout_flush w,
           print_exc w e,
           print w (str e),
           stdout_flush w,
           lock_release])"

subsection \<open>\<^verbatim>\<open>main\<close>\<close>

text \<open>The command line error handling of \<^verbatim>\<open>main\<close>: the check that there is a path.\<close>

definition check_not_empty :: "world \<Rightarrow> string list \<Rightarrow> prog" where
  "check_not_empty w source_path_list =
     (if length source_path_list = 0 then
        block
          [stderr_write w
             (''[ERROR] Please include one or more paths to UFO source directories as ''
              @ ''arguments to the script.'' @ linesep),
           sys_exit 1]
      else skip)"

text \<open>The body of the loop over the source paths (the three checks of each path).\<close>

definition check_source_path :: "world \<Rightarrow> string \<Rightarrow> prog" where
  "check_source_path w source_path =
     (if length source_path < 5 then
        block
          [stderr_write w
             (''[ERROR] '' @ quote @ source_path @ quote
              @ '' is not properly formatted as a path to a UFO source ''
              @ ''directory'' @ linesep),
           sys_exit 1]
      else if \<not> (drop (length source_path - 4) source_path = ''.ufo'') then
        block
          [stderr_write w
             (''[ERROR] '' @ quote @ source_path @ quote
              @ '' does not appear to be a UFO source directory'' @ linesep),
           sys_exit 1]
      else if \<not> isdir w source_path then
        block
          [stderr_write w
             (''[ERROR] '' @ quote @ source_path @ quote
              @ '' does not appear to be a valid path to a UFO source ''
              @ ''directory'' @ linesep),
           sys_exit 1]
      else skip)"

text \<open>
  \<^verbatim>\<open>argv[0]\<close> raises \<^verbatim>\<open>IndexError\<close> on the empty list. \<open>processes1\<close> and \<open>processes2\<close> are
  the values of the variable \<^verbatim>\<open>processes\<close> after its first and second assignment.
\<close>

definition main :: "world \<Rightarrow> string list \<Rightarrow> prog" where
  "main w argv =
     block
       [case argv of
          [] \<Rightarrow> raise IndexError
        | argv0 # rest \<Rightarrow>
            if argv0 \<in> set [''-h'', ''--help''] then block [print w HELP, sys_exit 0]
            else if argv0 \<in> set [''-v'', ''--version''] then block [print w VERSION, sys_exit 0]
            else if argv0 = ''--usage'' then block [print w USAGE, sys_exit 0]
            else skip,
        let processes = PROCESSES;
            source_path_list = argv
        in block
          [check_not_empty w source_path_list,
           for_each source_path_list (check_source_path w),
           print w '' '',
           print w ''[*] Beginning fontmake-mp font compile...'',
           if length source_path_list = 1 then
             block
               [print w ''[*] Single font compile requested. Concurrency is not necessary.  No additional processes spawned...'',
                print w '' '',
                build_fonts w (source_path_list ! 0),
                sys_exit 0]
           else
             (let processes1 = (if processes = 0 then cpu_count w else processes);
                  processes2 = (if processes1 > length source_path_list
                                then length source_path_list else processes1)
              in block
                [if processes = 0 then
                   print w (''[*] Detected '' @ str_nat (cpu_count w) @ '' cores...'')
                 else
                   print w (''[*] Spawning '' @ str_nat processes
                            @ '' processes for the compile...''),
                 if processes1 > length source_path_list then
                   print w
                     (''[*] Limiting spawned process number to the number of font compiles needed ''
                      @ ''('' @ str_nat processes2 @ '')...'')
                 else skip,
                 print w ''[*] Output from the fontmake compiler will appear out of order below. This is expected...'',
                 print w '' '',
                 print w '' '',
                 Pool processes2,
                 pool_map (build_fonts w) source_path_list,
                 sys_exit 0])]]"

subsection \<open>The script run by the interpreter\<close>

text \<open>
  \<^verbatim>\<open>if __name__ == "__main__": main(sys.argv[1:])\<close>, from the initial state. The exit
  status of the process is the argument of \<^verbatim>\<open>sys.exit\<close>; an exception that nothing
  catches makes the interpreter print its traceback on standard error (when the stream
  still works) and exit with status 1; a script that hangs has no exit status.
\<close>

definition script :: "world \<Rightarrow> string list \<Rightarrow> nat option \<times> state" where
  "script w argv =
     (case main w argv init of (r, s') \<Rightarrow>
        (case r of
           Return \<Rightarrow> (Some 0, s')
         | Raise e \<Rightarrow>
             (case e of
                SystemExit n \<Rightarrow> (Some n, s')
              | Error cls msg \<Rightarrow>
                  (Some 1, if stream_fails w (out s') then s'
                           else s'\<lparr>out := out s' @ [Traceback e]\<rparr>))
         | Hang \<Rightarrow> (None, s')))"

subsection \<open>Reading the events\<close>

fun job_of :: "event \<Rightarrow> string list" where
  "job_of (Compile p) = [p]"
| "job_of e = []"

fun pool_of :: "event \<Rightarrow> nat list" where
  "pool_of (PoolCreate n) = [n]"
| "pool_of e = []"

fun stdout_of :: "event \<Rightarrow> string list" where
  "stdout_of (Stdout l) = [l]"
| "stdout_of e = []"

fun traceback_of :: "event \<Rightarrow> py_exc list" where
  "traceback_of (Traceback x) = [x]"
| "traceback_of e = []"

text \<open>What reaches standard error: the \<^verbatim>\<open>sys.stderr.write\<close> texts and the tracebacks.\<close>

fun on_stderr :: "event \<Rightarrow> bool" where
  "on_stderr (Stderr t) = True"
| "on_stderr (Traceback x) = True"
| "on_stderr e = False"

text \<open>The jobs that were run, the pools that were created, the lines on standard output.\<close>

definition jobs_run :: "event list \<Rightarrow> string list" where
  "jobs_run es = concat (map job_of es)"

definition pools :: "event list \<Rightarrow> nat list" where
  "pools es = concat (map pool_of es)"

definition stdout_lines :: "event list \<Rightarrow> string list" where
  "stdout_lines es = concat (map stdout_of es)"

definition tracebacks :: "event list \<Rightarrow> py_exc list" where
  "tracebacks es = concat (map traceback_of es)"

definition stderr_events :: "event list \<Rightarrow> event list" where
  "stderr_events es = filter on_stderr es"

subsection \<open>Conditions on the host and on the arguments\<close>

text \<open>No write ever fails.\<close>

definition io_ok :: "world \<Rightarrow> bool" where
  "io_ok w = (\<forall>es. \<not> stream_fails w es)"

text \<open>Every failure of the compiler on these paths is an instance of \<^verbatim>\<open>Exception\<close>.\<close>

definition fails_with_Exception :: "world \<Rightarrow> string list \<Rightarrow> bool" where
  "fails_with_Exception w ps =
     list_all (\<lambda>p. case run_from_ufos w p of None \<Rightarrow> True | Some e \<Rightarrow> is_Exception e) ps"

text \<open>
  A path is malformed when it has fewer than 5 characters or does not end in
  \<^verbatim>\<open>.ufo\<close>; it is acceptable when it is well formed and an existing directory.
\<close>

definition malformed :: "string \<Rightarrow> bool" where
  "malformed p = (length p < 5 \<or> \<not> suffix ''.ufo'' p)"

definition acceptable :: "world \<Rightarrow> string \<Rightarrow> bool" where
  "acceptable w p = (\<not> malformed p \<and> isdir w p)"

text \<open>The first argument asks for the help, version or usage text.\<close>

definition is_flag :: "string \<Rightarrow> bool" where
  "is_flag a = (a \<in> set [''-h'', ''--help'', ''-v'', ''--version'', ''--usage''])"

subsection \<open>What a run emits\<close>

text \<open>
  What the handler of \<^verbatim>\<open>build_fonts\<close> emits for the exception \<open>e\<close> when nothing stops it.
\<close>

definition diagnostic :: "string \<Rightarrow> py_exc \<Rightarrow> event list" where
  "diagnostic ufo_path e =
     [Acquire,
      Stdout '' '',
      Stdout (''[ERROR] The fontmake compile for '' @ ufo_path
              @ '' failed with the following error:'' @ linesep),
      Flush,
      Traceback e,
      Stdout (str e),
      Flush,
      Release]"

text \<open>
  What one job emits when the streams work and the lock is free: the call of the compiler
  and, when it raised an \<^verbatim>\<open>Exception\<close>, the diagnostic.
\<close>

definition job_events :: "world \<Rightarrow> string \<Rightarrow> event list" where
  "job_events w p =
     Compile p #
     (case run_from_ufos w p of
        None \<Rightarrow> []
      | Some e \<Rightarrow> if is_Exception e then diagnostic p e else [])"

text \<open>How such a job ends: it returns, unless the compiler raised past \<^verbatim>\<open>except Exception\<close>.\<close>

definition job_result :: "world \<Rightarrow> string \<Rightarrow> result" where
  "job_result w p =
     (case run_from_ufos w p of
        None \<Rightarrow> Return
      | Some e \<Rightarrow> if is_Exception e then Return else Raise e)"

text \<open>The progress lines of \<^verbatim>\<open>main\<close> before the job of a single path.\<close>

definition single_progress :: "event list" where
  "single_progress =
     [Stdout '' '',
      Stdout ''[*] Beginning fontmake-mp font compile...'',
      Stdout ''[*] Single font compile requested. Concurrency is not necessary.  No additional processes spawned...'',
      Stdout '' '']"

text \<open>
  The progress lines of \<^verbatim>\<open>main\<close> for \<open>n\<close> paths, \<open>n \<ge> 2\<close>, up to the creation of the pool.
\<close>

definition pool_progress :: "world \<Rightarrow> nat \<Rightarrow> event list" where
  "pool_progress w n =
     [Stdout '' '',
      Stdout ''[*] Beginning fontmake-mp font compile...'',
      Stdout (''[*] Detected '' @ str_nat (cpu_count w) @ '' cores...'')]
     @ (if cpu_count w > n then
          [Stdout (''[*] Limiting spawned process number to the number of font compiles needed (''
                   @ str_nat n @ '')...'')]
        else [])
     @ [Stdout ''[*] Output from the fontmake compiler will appear out of order below. This is expected...'',
        Stdout '' '',
        Stdout '' '',
        PoolCreate (min (cpu_count w) n)]"

text \<open>
  \<open>only_emits Q m\<close>: whatever the statement \<open>m\<close> does, it only appends events, and
  each of them satisfies \<open>Q\<close>.
\<close>

definition only_emits :: "(event \<Rightarrow> bool) \<Rightarrow> prog \<Rightarrow> bool" where
  "only_emits Q m = (\<forall>s. \<exists>es. out (snd (m s)) = out s @ es \<and> list_all Q es)"

text \<open>The events of a job: anything but a write to \<^verbatim>\<open>sys.stderr\<close> and the creation of a pool.\<close>

fun job_event :: "event \<Rightarrow> bool" where
  "job_event (Stderr t) = False"
| "job_event (PoolCreate n) = False"
| "job_event e = True"

text \<open>The report of an empty list of paths, as \<open>check_not_empty\<close> writes it.\<close>

definition empty_list_report :: event where
  "empty_list_report =
     Stderr (''[ERROR] Please include one or more paths to UFO source directories as ''
             @ ''arguments to the script.'' @ linesep)"

subsection \<open>Example hosts\<close>

text \<open>
  Every path is a directory, there are four cores, the compiler fails on \<^verbatim>\<open>b.ufo\<close> only,
  with the message \<^verbatim>\<open>bad glyph\<close>, and the streams work.
\<close>

definition example_host :: world where
  "example_host =
     \<lparr>isdir = (\<lambda>p. True),
      cpu_count = 4,
      run_from_ufos =
        (\<lambda>p. if p = ''b.ufo'' then Some (Error ''FontmakeError'' ''bad glyph'') else None),
      stream_fails = (\<lambda>es. False)\<rparr>"

text \<open>The same host, where every write fails.\<close>

definition broken_pipe_host :: world where
  "broken_pipe_host = example_host\<lparr>stream_fails := (\<lambda>es. True)\<rparr>"

text \<open>The same host, where the compiler calls \<^verbatim>\<open>sys.exit(3)\<close> on \<^verbatim>\<open>b.ufo\<close>.\<close>

definition exiting_host :: world where
  "exiting_host =
     example_host\<lparr>run_from_ufos := (\<lambda>p. if p = ''b.ufo'' then Some (SystemExit 3) else None)\<rparr>"

text \<open>The same host, where no path is a directory.\<close>

definition empty_disk_host :: world where
  "empty_disk_host = example_host\<lparr>isdir := (\<lambda>p. False)\<rparr>"

section \<open>Properties\<close>

subsection \<open>Statements when the streams work\<close>

lemma emit_ok: "io_ok w \<Longrightarrow> emit w e s = (Return, s\<lparr>out := out s @ [e]\<rparr>)"
  by (simp add: emit_def io_ok_def)

lemmas write_defs = print_def stderr_write_def stdout_flush_def print_exc_def

lemma state_unlock: "\<not> lock_held s \<Longrightarrow> s\<lparr>lock_held := False\<rparr> = s"
  by (cases s) simp

lemma build_fonts_io_ok:
  assumes "io_ok w" and "\<not> lock_held s"
  shows "build_fonts w p s = (job_result w p, s\<lparr>out := out s @ job_events w p\<rparr>)"
proof (cases "run_from_ufos w p")
  case None
  then show ?thesis
    by (simp add: build_fonts_def try_except_Exception_def call_run_from_ufos_def
        job_result_def job_events_def)
next
  case (Some e)
  show ?thesis
  proof (cases "is_Exception e")
    case False
    with Some show ?thesis
      by (simp add: build_fonts_def try_except_Exception_def call_run_from_ufos_def
          job_result_def job_events_def)
  next
    case True
    with Some assms show ?thesis
      by (simp add: build_fonts_def try_except_Exception_def call_run_from_ufos_def
          job_result_def job_events_def diagnostic_def write_defs emit_ok
          lock_acquire_def lock_release_def state_unlock)
  qed
qed

lemma suffix_ufo: "suffix ''.ufo'' p \<longleftrightarrow> drop (length p - 4) p = ''.ufo''"
proof
  assume "suffix ''.ufo'' p"
  then obtain zs where "p = zs @ ''.ufo''" by (auto simp: suffix_def)
  then show "drop (length p - 4) p = ''.ufo''" by simp
next
  assume "drop (length p - 4) p = ''.ufo''"
  then show "suffix ''.ufo'' p" by (metis suffix_drop)
qed

lemma check_acceptable: "acceptable w p \<Longrightarrow> check_source_path w p = skip"
  by (simp add: acceptable_def malformed_def check_source_path_def suffix_ufo)

lemma check_not_acceptable:
  assumes "io_ok w" and "\<not> acceptable w p"
  shows "\<exists>m. m \<noteq> [] \<and> check_source_path w p s = (Raise (SystemExit 1), s\<lparr>out := out s @ [Stderr m]\<rparr>)"
  using assms
  by (auto simp add: acceptable_def malformed_def check_source_path_def suffix_ufo
      write_defs emit_ok sys_exit_def raise_def)

lemma validate_ok:
  "list_all (acceptable w) ps \<Longrightarrow> for_each ps (check_source_path w) s = (Return, s)"
  by (induction ps) (simp_all add: check_acceptable skip_def)

lemma validate_fail:
  assumes "io_ok w" and "\<not> list_all (acceptable w) ps"
  shows "\<exists>m. m \<noteq> [] \<and>
           for_each ps (check_source_path w) s
           = (Raise (SystemExit 1), s\<lparr>out := out s @ [Stderr m]\<rparr>)"
  using assms(2)
proof (induction ps)
  case Nil
  then show ?case by simp
next
  case (Cons p ps)
  show ?case
  proof (cases "acceptable w p")
    case True
    with Cons show ?thesis by (simp add: check_acceptable skip_def)
  next
    case False
    from check_not_acceptable [OF assms(1) False, of s]
    obtain m where "m \<noteq> []"
      and "check_source_path w p s = (Raise (SystemExit 1), s\<lparr>out := out s @ [Stderr m]\<rparr>)"
      by blast
    then show ?thesis by auto
  qed
qed

lemma job_result_Exception:
  "fails_with_Exception w ps \<Longrightarrow> p \<in> set ps \<Longrightarrow> job_result w p = Return"
  by (auto simp: fails_with_Exception_def job_result_def list_all_iff split: option.splits)

lemma pool_map_io_ok:
  assumes "io_ok w"
  shows "fails_with_Exception w ps \<Longrightarrow> \<not> lock_held s \<Longrightarrow>
         pool_map (build_fonts w) ps s
         = (Return, s\<lparr>out := out s @ concat (map (job_events w) ps)\<rparr>)"
proof (induction ps arbitrary: s)
  case Nil
  then show ?case by (simp add: pool_map_def)
next
  case (Cons p ps)
  have r: "job_result w p = Return"
    using Cons.prems(1) by (simp add: job_result_Exception)
  have tl: "fails_with_Exception w ps"
    using Cons.prems(1) by (simp add: fails_with_Exception_def)
  have "pool_map (build_fonts w) ps (s\<lparr>out := out s @ job_events w p\<rparr>)
        = (Return, s\<lparr>out := out s @ job_events w p @ concat (map (job_events w) ps)\<rparr>)"
    using Cons.IH [OF tl, of "s\<lparr>out := out s @ job_events w p\<rparr>"] Cons.prems(2) by simp
  then show ?case
    using build_fonts_io_ok [OF assms Cons.prems(2), of p] r
    by (simp add: pool_map_def)
qed

lemma acceptable_not_flag: "acceptable w p \<Longrightarrow> \<not> is_flag p"
  by (auto simp: acceptable_def malformed_def is_flag_def suffix_ufo)

lemma not_flag_simps:
  assumes "\<not> is_flag a"
  shows "a \<noteq> ''-h''" "a \<noteq> ''--help''" "a \<noteq> ''-v''" "a \<noteq> ''--version''" "a \<noteq> ''--usage''"
  using assms by (auto simp: is_flag_def)

lemma main_single:
  assumes "io_ok w" and "acceptable w p"
  shows "main w [p] init
         = (case job_result w p of Return \<Rightarrow> Raise (SystemExit 0) | r \<Rightarrow> r,
            \<lparr>out = single_progress @ job_events w p, lock_held = False\<rparr>)"
proof -
  note nf = not_flag_simps [OF acceptable_not_flag [OF assms(2)]]
  have chk: "check_source_path w p = skip"
    by (rule check_acceptable [OF assms(2)])
  show ?thesis
    unfolding main_def
    by (simp add: nf chk check_not_empty_def skip_def Let_def write_defs emit_ok [OF assms(1)] init_def
        build_fonts_io_ok [OF assms(1)] sys_exit_def raise_def single_progress_def
        split: result.splits)
qed

lemma main_pool:
  assumes "io_ok w" and "list_all (acceptable w) ps" and "2 \<le> length ps"
    and "0 < cpu_count w" and "fails_with_Exception w ps"
  shows "main w ps init
         = (Raise (SystemExit 0),
            \<lparr>out = pool_progress w (length ps) @ concat (map (job_events w) ps),
             lock_held = False\<rparr>)"
proof -
  have ne: "ps \<noteq> []" using assms(3) by auto
  then have "acceptable w (hd ps)" using assms(2) by (cases ps) auto
  note nf = not_flag_simps [OF acceptable_not_flag [OF this]]
  have len: "length ps \<noteq> 0" "length ps \<noteq> Suc 0" using assms(3) by auto
  have v: "\<And>s. for_each ps (check_source_path w) s = (Return, s)"
    by (rule validate_ok [OF assms(2)])
  have pm: "\<And>s. \<not> lock_held s \<Longrightarrow> pool_map (build_fonts w) ps s
         = (Return, s\<lparr>out := out s @ concat (map (job_events w) ps)\<rparr>)"
    by (rule pool_map_io_ok [OF assms(1) assms(5)])
  have pool: "\<not> min (cpu_count w) (length ps) < 1" "\<not> length ps < 1" "\<not> cpu_count w < 1"
    using assms(3,4) by auto
  show ?thesis
    unfolding main_def
    by (simp add: len(2) pool ne assms(4) list.case_eq_if nf v pm check_not_empty_def skip_def Let_def write_defs emit_ok [OF assms(1)]
        init_def sys_exit_def raise_def pool_progress_def PROCESSES_def Pool_def min_def)
qed

subsection \<open>Reading the events of a run\<close>


lemma pools_append: "pools (xs @ ys) = pools xs @ pools ys"
  by (simp add: pools_def)



lemma pools_job_events: "pools (job_events w p) = []"
  by (cases "run_from_ufos w p") (auto simp: pools_def job_events_def diagnostic_def)


lemma stderr_events_job_events:
  "fails_with_Exception w [p] \<Longrightarrow>
   stderr_events (job_events w p)
   = (case run_from_ufos w p of None \<Rightarrow> [] | Some e \<Rightarrow> [Traceback e])"
  by (cases "run_from_ufos w p")
    (auto simp: stderr_events_def job_events_def diagnostic_def fails_with_Exception_def)


lemma pools_all: "pools (concat (map (job_events w) ps)) = []"
  by (induction ps) (simp_all add: pools_append pools_job_events, simp add: pools_def)


lemma stderr_events_append: "stderr_events (xs @ ys) = stderr_events xs @ stderr_events ys"
  by (simp add: stderr_events_def)

lemma stderr_events_all:
  "fails_with_Exception w ps \<Longrightarrow>
   stderr_events (concat (map (job_events w) ps))
   = map Traceback (List.map_filter (run_from_ufos w) ps)"
proof (induction ps)
  case Nil
  then show ?case by (simp add: stderr_events_def List.map_filter_simps)
next
  case (Cons p ps)
  then have "fails_with_Exception w ps" by (simp add: fails_with_Exception_def)
  moreover from Cons.prems have "fails_with_Exception w [p]"
    by (simp add: fails_with_Exception_def)
  ultimately show ?case
    using Cons.IH
    by (cases "run_from_ufos w p")
      (simp_all add: stderr_events_append List.map_filter_simps stderr_events_job_events)
qed

lemma progress_read:
  "jobs_run single_progress = []" "pools single_progress = []"
  "tracebacks single_progress = []" "stderr_events single_progress = []"
  "jobs_run (pool_progress w n) = []" "pools (pool_progress w n) = [min (cpu_count w) n]"
  "tracebacks (pool_progress w n) = []" "stderr_events (pool_progress w n) = []"
  by (simp_all add: jobs_run_def pools_def tracebacks_def stderr_events_def
      single_progress_def pool_progress_def)

subsection \<open>Runs that reach the dispatch\<close>

lemma main_flag:
  assumes "io_ok w" and "is_flag a"
  shows "\<exists>l. main w (a # rest) init = (Raise (SystemExit 0), \<lparr>out = [Stdout l], lock_held = False\<rparr>)"
  using assms(2) unfolding main_def is_flag_def
  by (auto simp: write_defs emit_ok [OF assms(1)] init_def sys_exit_def raise_def)

lemma main_rejects:
  assumes "io_ok w" and "argv \<noteq> []" and "\<not> is_flag (hd argv)"
    and "\<not> list_all (acceptable w) argv"
  shows "\<exists>m. m \<noteq> [] \<and> main w argv init = (Raise (SystemExit 1), \<lparr>out = [Stderr m], lock_held = False\<rparr>)"
proof -
  note nf = not_flag_simps [OF assms(3)]
  from validate_fail [OF assms(1) assms(4), of init]
  obtain m where m: "m \<noteq> []"
    and v: "for_each argv (check_source_path w) init
            = (Raise (SystemExit 1), init\<lparr>out := out init @ [Stderr m]\<rparr>)"
    by blast
  have "main w argv init = (Raise (SystemExit 1), \<lparr>out = [Stderr m], lock_held = False\<rparr>)"
    unfolding main_def
    using v by (simp add: assms(2) list.case_eq_if nf check_not_empty_def skip_def Let_def init_def)
  with m show ?thesis by blast
qed

lemma main_dispatch:
  assumes "io_ok w" and "argv \<noteq> []" and "list_all (acceptable w) argv"
    and "0 < cpu_count w" and "fails_with_Exception w argv"
  shows "main w argv init
         = (Raise (SystemExit 0),
            \<lparr>out = (if length argv = 1 then single_progress
                    else pool_progress w (length argv))
                   @ concat (map (job_events w) argv),
             lock_held = False\<rparr>)"
proof (cases "length argv = 1")
  case True
  then obtain p where argv: "argv = [p]" by (cases argv) auto
  with assms(3) have "acceptable w p" by simp
  from main_single [OF assms(1) this] job_result_Exception [OF assms(5), of p] argv
  show ?thesis by simp
next
  case False
  with assms(2) have "2 \<le> length argv"
    by (cases argv) (auto simp: Suc_le_eq)
  from main_pool [OF assms(1) assms(3) this assms(4) assms(5)] False
  show ?thesis by simp
qed

lemma script_dispatch:
  assumes "io_ok w" and "argv \<noteq> []" and "list_all (acceptable w) argv"
    and "0 < cpu_count w" and "fails_with_Exception w argv"
  shows "script w argv
         = (Some 0,
            \<lparr>out = (if length argv = 1 then single_progress
                    else pool_progress w (length argv))
                   @ concat (map (job_events w) argv),
             lock_held = False\<rparr>)"
  unfolding script_def main_dispatch [OF assms] by simp


subsection \<open>Statements only append events\<close>

lemma only_emitsI:
  "(\<And>s. \<exists>es. out (snd (m s)) = out s @ es \<and> list_all Q es) \<Longrightarrow> only_emits Q m"
  by (simp add: only_emits_def)

lemma only_emits_skip: "only_emits Q skip"
  by (simp add: only_emits_def skip_def)

lemma only_emits_raise: "only_emits Q (raise e)"
  by (simp add: only_emits_def raise_def)

lemma only_emits_sys_exit: "only_emits Q (sys_exit n)"
  by (simp add: sys_exit_def only_emits_raise)

lemma only_emits_emit: "Q e \<Longrightarrow> only_emits Q (emit w e)"
  by (simp add: only_emits_def emit_def)

lemma only_emits_lock_acquire: "Q Acquire \<Longrightarrow> only_emits Q lock_acquire"
  by (simp add: only_emits_def lock_acquire_def)

lemma only_emits_lock_release: "Q Release \<Longrightarrow> only_emits Q lock_release"
  by (simp add: only_emits_def lock_release_def)

lemma only_emits_call: "Q (Compile p) \<Longrightarrow> only_emits Q (call_run_from_ufos w p)"
  by (simp add: only_emits_def call_run_from_ufos_def split: option.splits)

lemma only_emits_Pool: "Q (PoolCreate n) \<Longrightarrow> only_emits Q (Pool n)"
  by (simp add: only_emits_def Pool_def)

lemma only_emits_seq:
  assumes m: "only_emits Q m" and k: "only_emits Q k"
  shows "\<exists>es. out (snd (case m s of (r, s') \<Rightarrow>
                 (case r of Return \<Rightarrow> k s' | Raise e \<Rightarrow> (Raise e, s') | Hang \<Rightarrow> (Hang, s'))))
              = out s @ es \<and> list_all Q es"
proof -
  obtain r s' where ms: "m s = (r, s')" by (cases "m s")
  from m obtain es where es: "out (snd (m s)) = out s @ es" "list_all Q es"
    unfolding only_emits_def by blast
  from k obtain fs where fs: "out (snd (k s')) = out s' @ fs" "list_all Q fs"
    unfolding only_emits_def by blast
  show ?thesis
  proof (cases r)
    case Return
    with ms es fs have "out (snd (k s')) = out s @ (es @ fs)" "list_all Q (es @ fs)" by simp_all
    with ms Return show ?thesis by simp
  next
    case (Raise e)
    with ms es show ?thesis by simp
  next
    case Hang
    with ms es show ?thesis by simp
  qed
qed

lemma only_emits_block: "list_all (only_emits Q) ms \<Longrightarrow> only_emits Q (block ms)"
proof (induction ms)
  case Nil
  then show ?case by (simp add: only_emits_def)
next
  case (Cons m ms)
  then have "only_emits Q m" "only_emits Q (block ms)" by simp_all
  from only_emits_seq [OF this] show ?case by (intro only_emitsI) simp
qed

lemma only_emits_for_each:
  "list_all (\<lambda>x. only_emits Q (body x)) xs \<Longrightarrow> only_emits Q (for_each xs body)"
proof (induction xs)
  case Nil
  then show ?case by (simp add: only_emits_def)
next
  case (Cons x xs)
  then have "only_emits Q (body x)" "only_emits Q (for_each xs body)" by simp_all
  from only_emits_seq [OF this] show ?case by (intro only_emitsI) simp
qed

lemma only_emits_try:
  assumes b: "only_emits Q body" and h: "\<And>e. only_emits Q (handler e)"
  shows "only_emits Q (try_except_Exception body handler)"
proof (rule only_emitsI)
  fix s
  obtain r s' where bs: "body s = (r, s')" by (cases "body s")
  from b obtain es where es: "out (snd (body s)) = out s @ es" "list_all Q es"
    unfolding only_emits_def by blast
  show "\<exists>es. out (snd (try_except_Exception body handler s)) = out s @ es \<and> list_all Q es"
  proof (cases "\<exists>e. r = Raise e \<and> is_Exception e")
    case True
    then obtain e where e: "r = Raise e" "is_Exception e" by blast
    from h [of e] obtain fs where fs: "out (snd (handler e s')) = out s' @ fs" "list_all Q fs"
      unfolding only_emits_def by blast
    with bs es have "out (snd (handler e s')) = out s @ (es @ fs)" "list_all Q (es @ fs)"
      by simp_all
    with bs e show ?thesis by (simp add: try_except_Exception_def)
  next
    case False
    with bs es show ?thesis
      by (cases r) (auto simp: try_except_Exception_def)
  qed
qed

lemma only_emits_build_fonts: "only_emits job_event (build_fonts w p)"
  unfolding build_fonts_def write_defs
  by (intro only_emits_try only_emits_block only_emits_call)
    (simp_all add: only_emits_emit only_emits_lock_acquire only_emits_lock_release)

lemma only_emits_pool_map: "only_emits job_event (pool_map (build_fonts w) ps)"
  unfolding pool_map_def
  by (rule only_emits_for_each) (simp add: list_all_iff only_emits_build_fonts)


lemma only_emits_mono:
  assumes "only_emits P m" and "\<And>e. P e \<Longrightarrow> Q e"
  shows "only_emits Q m"
proof (rule only_emitsI)
  fix s
  from assms(1) obtain es where es: "out (snd (m s)) = out s @ es" "list_all P es"
    unfolding only_emits_def by blast
  from es(2) assms(2) have "list_all Q es" by (auto simp: list_all_iff)
  with es(1) show "\<exists>es. out (snd (m s)) = out s @ es \<and> list_all Q es" by blast
qed

lemma job_event_not_Stderr: "job_event e \<Longrightarrow> e \<noteq> Stderr t"
  by (cases e) simp_all

lemma job_event_no_pool: "list_all job_event es \<Longrightarrow> pools es = []"
proof (induction es)
  case Nil
  then show ?case by (simp add: pools_def)
next
  case (Cons e es)
  then show ?case by (cases e) (simp_all add: pools_def)
qed

lemma job_event_not_report: "job_event e \<Longrightarrow> e \<noteq> empty_list_report"
  by (cases e) (simp_all add: empty_list_report_def)

lemma only_emits_check: "only_emits (\<lambda>e. e \<noteq> empty_list_report) (check_source_path w p)"
  unfolding check_source_path_def write_defs
  by (auto intro!: only_emits_block only_emits_skip
      simp: only_emits_emit only_emits_sys_exit quote_def empty_list_report_def)

lemma list_all_ConsI: "P x \<Longrightarrow> list_all P xs \<Longrightarrow> list_all P (x # xs)"
  by simp

lemma only_emits_if:
  "(c \<Longrightarrow> only_emits Q a) \<Longrightarrow> (\<not> c \<Longrightarrow> only_emits Q b) \<Longrightarrow> only_emits Q (if c then a else b)"
  by simp

lemma only_emits_flags:
  assumes "\<And>l. only_emits Q (emit w (Stdout l))"
  shows "only_emits Q
     (case argv of
        [] \<Rightarrow> raise IndexError
      | argv0 # rest \<Rightarrow>
          if argv0 \<in> set [''-h'', ''--help''] then block [print w HELP, sys_exit 0]
          else if argv0 \<in> set [''-v'', ''--version''] then block [print w VERSION, sys_exit 0]
          else if argv0 = ''--usage'' then block [print w USAGE, sys_exit 0]
          else skip)"
proof (cases argv)
  case Nil
  then show ?thesis by (simp only: list.case only_emits_raise)
next
  case (Cons a rest)
  show ?thesis
    unfolding Cons list.case print_def
    by (intro only_emits_if only_emits_block list_all_ConsI list.pred_inject(1)
        only_emits_sys_exit only_emits_skip assms)
qed

lemma only_emits_main:
  assumes "argv \<noteq> []"
  shows "only_emits (\<lambda>e. e \<noteq> empty_list_report) (main w argv)"
proof -
  let ?Q = "\<lambda>e. e \<noteq> empty_list_report"
  have bf: "\<And>p. only_emits ?Q (build_fonts w p)"
    by (rule only_emits_mono [OF only_emits_build_fonts]) (rule job_event_not_report)
  have pm: "only_emits ?Q (pool_map (build_fonts w) argv)"
    by (rule only_emits_mono [OF only_emits_pool_map]) (rule job_event_not_report)
  have chk: "only_emits ?Q (for_each argv (check_source_path w))"
    by (rule only_emits_for_each) (simp add: list_all_iff only_emits_check)
  have em: "\<And>l. only_emits ?Q (emit w (Stdout l))"
    by (rule only_emits_emit) (simp add: empty_list_report_def)
  have pl: "\<And>n. only_emits ?Q (Pool n)"
    by (rule only_emits_Pool) (simp add: empty_list_report_def)
  have cne: "only_emits ?Q (check_not_empty w argv)"
    using assms by (simp add: check_not_empty_def only_emits_skip)
  show ?thesis
    unfolding main_def Let_def
    apply (rule only_emits_block)
    apply (rule list_all_ConsI)
     apply (rule only_emits_flags [OF em])
    unfolding print_def
    apply (intro only_emits_block list_all_ConsI list.pred_inject(1)
        only_emits_if em pl chk bf pm cne only_emits_skip only_emits_sys_exit TrueI)
    done
qed

subsection \<open>The script as a whole\<close>

lemma example_host_io_ok: "io_ok example_host"
  by (simp add: io_ok_def example_host_def)

lemma script_out:
  "\<exists>ts. out (snd (script w argv)) = out (snd (main w argv init)) @ ts
        \<and> jobs_run ts = [] \<and> pools ts = []"
proof -
  obtain r s' where m: "main w argv init = (r, s')" by (cases "main w argv init")
  show ?thesis
  proof (cases r)
    case Return
    with m show ?thesis by (simp add: script_def jobs_run_def pools_def)
  next
    case (Raise e)
    with m show ?thesis
      by (cases e) (auto simp: script_def jobs_run_def pools_def)
  next
    case Hang
    with m show ?thesis by (simp add: script_def jobs_run_def pools_def)
  qed
qed

text \<open>Stepping through a sequence of statements.\<close>

lemma block_skip: "block (skip # ms) s = block ms s"
  by (simp add: skip_def)

lemma block_emit: "io_ok w \<Longrightarrow> block (emit w e # ms) s = block ms (s\<lparr>out := out s @ [e]\<rparr>)"
  by (simp add: emit_ok)

lemma block_Pool:
  "\<not> n < 1 \<Longrightarrow> block (Pool n # ms) s = block ms (s\<lparr>out := out s @ [PoolCreate n]\<rparr>)"
  by (simp add: Pool_def)

lemma block_single: "block [m] s = m s"
  by (cases "m s") (simp split: result.splits)

lemma block_if:
  "block ((if c then a else b) # ms) s = (if c then block (a # ms) s else block (b # ms) s)"
  by simp

lemma block_validate:
  "list_all (acceptable w) ps \<Longrightarrow>
   block (for_each ps (check_source_path w) # ms) s = block ms s"
  by (simp add: validate_ok)

lemma main_pool_prefix:
  assumes "io_ok w" and "list_all (acceptable w) ps" and "2 \<le> length ps"
    and "0 < cpu_count w"
  shows "\<exists>es. out (snd (main w ps init)) = pool_progress w (length ps) @ es
              \<and> list_all job_event es"
proof -
  let ?s1 = "\<lparr>out = pool_progress w (length ps), lock_held = False\<rparr>"
  have ne: "ps \<noteq> []" using assms(3) by auto
  then have "acceptable w (hd ps)" using assms(2) by (cases ps) auto
  note nf = not_flag_simps [OF acceptable_not_flag [OF this]]
  have len: "length ps \<noteq> Suc 0" using assms(3) by auto
  have pool: "\<not> min (cpu_count w) (length ps) < 1" "\<not> length ps < 1" "\<not> cpu_count w < 1"
    "cpu_count w \<noteq> 0"
    using assms(3,4) by auto
  have "main w ps init = block [pool_map (build_fonts w) ps, sys_exit 0] ?s1"
    unfolding main_def
    by (simp add: len pool ne assms(4) list.case_eq_if nf check_not_empty_def
        Let_def write_defs init_def pool_progress_def PROCESSES_def min_def
        block_skip block_emit [OF assms(1)] block_Pool block_single block_if
        block_validate [OF assms(2)]
        del: block.simps)
  moreover have "only_emits job_event (block [pool_map (build_fonts w) ps, sys_exit 0])"
    by (rule only_emits_block) (simp add: only_emits_pool_map only_emits_sys_exit)
  then have "\<exists>es. out (snd (block [pool_map (build_fonts w) ps, sys_exit 0] ?s1))
                  = out ?s1 @ es \<and> list_all job_event es"
    unfolding only_emits_def by (rule spec)
  ultimately show ?thesis
    by (simp only: state.select_convs)
qed

lemma stdout_lines_append: "stdout_lines (xs @ ys) = stdout_lines xs @ stdout_lines ys"
  by (simp add: stdout_lines_def)

lemma stdout_lines_diagnostic:
  "stdout_lines (diagnostic p e)
   = ['' '',
      ''[ERROR] The fontmake compile for '' @ p @ '' failed with the following error:'' @ linesep,
      str e]"
  by (simp add: stdout_lines_def diagnostic_def)

lemma stdout_lines_all:
  assumes "p \<in> set ps" and "run_from_ufos w p = Some e" and "is_Exception e"
  shows "set (stdout_lines (diagnostic p e))
         \<subseteq> set (stdout_lines (concat (map (job_events w) ps)))"
  using assms(1)
proof (induction ps)
  case Nil
  then show ?case by simp
next
  case (Cons q ps)
  show ?case
  proof (cases "p = q")
    case True
    with assms(2,3) have "job_events w q = Compile p # diagnostic p e"
      by (simp add: job_events_def)
    then show ?thesis
      by (auto simp: stdout_lines_append) (simp add: stdout_lines_def)
  next
    case False
    with Cons show ?thesis by (auto simp: stdout_lines_append)
  qed
qed

section \<open>The properties of the specification\<close>

text \<open>
  C1 (exit status). The exit status of the process does not depend on the outcome of
  the jobs. With working streams, at least one core and a compiler whose failures are
  instances of \<^verbatim>\<open>Exception\<close>, the status is 0 when the first argument asks for the help,
  version or usage text or when every path is accepted, whether or not jobs failed, and
  it is 1 when the list of arguments is empty or a path is rejected.
\<close>

theorem exit_status_ignores_jobs:
  assumes "io_ok w" and "0 < cpu_count w" and "fails_with_Exception w argv"
  shows "fst (script w argv)
         = Some (if argv \<noteq> [] \<and> (is_flag (hd argv) \<or> list_all (acceptable w) argv)
                 then 0 else 1)"
proof (cases argv)
  case Nil
  then show ?thesis
    by (simp add: script_def main_def raise_def IndexError_def)
next
  case (Cons a rest)
  show ?thesis
  proof (cases "is_flag a")
    case True
    from main_flag [OF assms(1) True, of rest] Cons True show ?thesis
      by (auto simp: script_def)
  next
    case False
    show ?thesis
    proof (cases "list_all (acceptable w) argv")
      case True
      with script_dispatch [OF assms(1) _ True assms(2) assms(3)] Cons show ?thesis by simp
    next
      case nacc: False
      from main_rejects [OF assms(1) _ _ nacc] Cons False nacc show ?thesis
        by (auto simp: script_def)
    qed
  qed
qed

theorem exit_status_ignores_jobs_witness:
  "io_ok example_host \<and> 0 < cpu_count example_host
   \<and> fails_with_Exception example_host [''a.ufo'', ''b.ufo'']
   \<and> fst (script example_host [''a.ufo'', ''b.ufo'']) = Some 0
   \<and> fst (script example_host [''a.ufo'', ''b.txt'']) = Some 1"
proof -
  have h1: "io_ok example_host" by (rule example_host_io_ok)
  have h2: "0 < cpu_count example_host" by (simp add: example_host_def)
  have h3: "fails_with_Exception example_host [''a.ufo'', ''b.ufo'']"
    by (simp add: fails_with_Exception_def example_host_def)
  have h4: "fails_with_Exception example_host [''a.ufo'', ''b.txt'']"
    by (simp add: fails_with_Exception_def example_host_def)
  have a: "list_all (acceptable example_host) [''a.ufo'', ''b.ufo'']"
    by (simp add: acceptable_def malformed_def suffix_ufo example_host_def)
  have b: "\<not> list_all (acceptable example_host) [''a.ufo'', ''b.txt'']"
    by (simp add: acceptable_def malformed_def suffix_ufo example_host_def)
  show ?thesis
    using h1 h2 h3 a b
      exit_status_ignores_jobs [OF h1 h2 h3] exit_status_ignores_jobs [OF h1 h2 h4]
    by (simp add: is_flag_def)
qed

text \<open>
  The status is not 0 exactly when every job succeeded: the single job of this run
  fails, and the status is 0.
\<close>

theorem failed_job_exits_0:
  "run_from_ufos example_host ''b.ufo'' = Some (Error ''FontmakeError'' ''bad glyph'')
   \<and> fst (script example_host [''b.ufo'']) = Some 0"
  by code_simp

text \<open>
  C2 (failures of the compiler). When the compiler raises an instance of \<^verbatim>\<open>Exception\<close>,
  the streams work and the lock is free, \<^verbatim>\<open>build_fonts\<close> catches it, emits the diagnostic
  between acquiring and releasing the lock, before it returns, and returns normally: with
  \<^verbatim>\<open>None\<close>, as a job that succeeded does.
\<close>

theorem build_fonts_catches_Exception:
  assumes "run_from_ufos w p = Some e" and "is_Exception e"
    and "io_ok w" and "\<not> lock_held s"
  shows "build_fonts w p s = (Return, s\<lparr>out := out s @ Compile p # diagnostic p e\<rparr>)"
  using build_fonts_io_ok [OF assms(3,4), of p] assms(1,2)
  by (simp add: job_result_def job_events_def)

theorem build_fonts_catches_Exception_witness:
  "run_from_ufos example_host ''b.ufo'' = Some (Error ''FontmakeError'' ''bad glyph'')
   \<and> is_Exception (Error ''FontmakeError'' ''bad glyph'')
   \<and> io_ok example_host \<and> \<not> lock_held init
   \<and> build_fonts example_host ''b.ufo'' init
     = (Return, \<lparr>out = Compile ''b.ufo''
                        # diagnostic ''b.ufo'' (Error ''FontmakeError'' ''bad glyph''),
                 lock_held = False\<rparr>)"
proof -
  have h1: "run_from_ufos example_host ''b.ufo'' = Some (Error ''FontmakeError'' ''bad glyph'')"
    by (simp add: example_host_def)
  have h2: "is_Exception (Error ''FontmakeError'' ''bad glyph'')" by simp
  have h3: "io_ok example_host" by (rule example_host_io_ok)
  have h4: "\<not> lock_held init" by (simp add: init_def)
  show ?thesis
    using h1 h2 h3 h4 build_fonts_catches_Exception [OF h1 h2 h3 h4]
    by (simp add: init_def)
qed

text \<open>
  Not every failure is caught: a \<^verbatim>\<open>SystemExit\<close> raised by the compiler leaves
  \<^verbatim>\<open>build_fonts\<close>, and nothing is reported.
\<close>

theorem build_fonts_SystemExit_escapes:
  "build_fonts exiting_host ''b.ufo'' init
   = (Raise (SystemExit 3), \<lparr>out = [Compile ''b.ufo''], lock_held = False\<rparr>)"
  by code_simp

text \<open>
  C3 (release of the lock). When the compiler raised an \<^verbatim>\<open>Exception\<close> and the lock was
  free, the lock is released if \<^verbatim>\<open>build_fonts\<close> returns, which it does when every write
  succeeds; if a write of the diagnostic raises, \<^verbatim>\<open>OSError\<close> leaves \<^verbatim>\<open>build_fonts\<close> and
  the lock is still held.
\<close>

theorem lock_state_after_diagnostic:
  assumes "run_from_ufos w p = Some e" and "is_Exception e" and "\<not> lock_held s"
  shows "((fst (build_fonts w p s) = Return \<and> \<not> lock_held (snd (build_fonts w p s)))
          \<or> (fst (build_fonts w p s) = Raise OSError \<and> lock_held (snd (build_fonts w p s))))
         \<and> (io_ok w \<longrightarrow> fst (build_fonts w p s) = Return)
         \<and> (stream_fails w (out s @ [Compile p, Acquire]) \<longrightarrow>
              fst (build_fonts w p s) = Raise OSError)"
proof -
  have "io_ok w \<longrightarrow> fst (build_fonts w p s) = Return"
    using build_fonts_io_ok [OF _ assms(3), of w p] assms(1,2)
    by (simp add: job_result_def)
  moreover have "(fst (build_fonts w p s) = Return \<and> \<not> lock_held (snd (build_fonts w p s)))
          \<or> (fst (build_fonts w p s) = Raise OSError \<and> lock_held (snd (build_fonts w p s)))"
    using assms
    by (simp add: build_fonts_def try_except_Exception_def call_run_from_ufos_def
        write_defs emit_def lock_acquire_def lock_release_def)
  moreover have "stream_fails w (out s @ [Compile p, Acquire]) \<longrightarrow>
              fst (build_fonts w p s) = Raise OSError"
    using assms
    by (simp add: build_fonts_def try_except_Exception_def call_run_from_ufos_def
        write_defs emit_def lock_acquire_def)
  ultimately show ?thesis by blast
qed

theorem lock_state_after_diagnostic_witness:
  "run_from_ufos example_host ''b.ufo'' = Some (Error ''FontmakeError'' ''bad glyph'')
   \<and> is_Exception (Error ''FontmakeError'' ''bad glyph'') \<and> \<not> lock_held init
   \<and> io_ok example_host
   \<and> fst (build_fonts example_host ''b.ufo'' init) = Return
   \<and> \<not> lock_held (snd (build_fonts example_host ''b.ufo'' init))"
proof -
  have h1: "run_from_ufos example_host ''b.ufo'' = Some (Error ''FontmakeError'' ''bad glyph'')"
    by (simp add: example_host_def)
  have h2: "is_Exception (Error ''FontmakeError'' ''bad glyph'')" by simp
  have h3: "\<not> lock_held init" by (simp add: init_def)
  have h4: "io_ok example_host" by (rule example_host_io_ok)
  show ?thesis
    using h1 h2 h3 h4 lock_state_after_diagnostic [OF h1 h2 h3]
    by auto
qed

text \<open>The lock is not released on every path: here the first write raises.\<close>

theorem lock_held_after_failed_write:
  "build_fonts broken_pipe_host ''b.ufo'' init
   = (Raise OSError, \<lparr>out = [Compile ''b.ufo'', Acquire], lock_held = True\<rparr>)"
  by code_simp

text \<open>
  C4 (no arguments). With an empty list of arguments, and a standard error that works,
  no job is run and the process exits with status 1; the only event is the traceback of
  the \<^verbatim>\<open>IndexError\<close> on standard error, before any progress line.
\<close>

theorem empty_argv_exits_1:
  assumes "\<not> stream_fails w []"
  shows "script w [] = (Some 1, \<lparr>out = [Traceback IndexError], lock_held = False\<rparr>)"
  using assms
  by (simp add: script_def main_def raise_def IndexError_def init_def)

theorem empty_argv_exits_1_witness:
  "\<not> stream_fails example_host []
   \<and> script example_host [] = (Some 1, \<lparr>out = [Traceback IndexError], lock_held = False\<rparr>)
   \<and> jobs_run [Traceback IndexError] = []
   \<and> stderr_events [Traceback IndexError] = [Traceback IndexError]"
proof -
  have h: "\<not> stream_fails example_host []" by (simp add: example_host_def)
  show ?thesis
    using h empty_argv_exits_1 [OF h]
    by (simp add: jobs_run_def stderr_events_def)
qed

text \<open>
  C5 (number of workers). \<^verbatim>\<open>PROCESSES\<close> is 0. In a run of \<open>J \<ge> 2\<close> acceptable paths on a
  host of \<open>C \<ge> 1\<close> cores whose streams work, exactly one pool is created, of \<open>min C J\<close>
  workers, which is at least 1, whatever the jobs do afterwards.
\<close>

theorem pool_size_is_min:
  assumes "io_ok w" and "list_all (acceptable w) argv" and "2 \<le> length argv"
    and "0 < cpu_count w"
  shows "PROCESSES = 0
         \<and> pools (out (snd (script w argv))) = [min (cpu_count w) (length argv)]
         \<and> 1 \<le> min (cpu_count w) (length argv)"
proof -
  from main_pool_prefix [OF assms]
  obtain es where es: "out (snd (main w argv init)) = pool_progress w (length argv) @ es"
    "list_all job_event es"
    by blast
  from script_out [of w argv]
  obtain ts where ts: "out (snd (script w argv)) = out (snd (main w argv init)) @ ts"
    "pools ts = []"
    by blast
  have "pools (out (snd (script w argv))) = [min (cpu_count w) (length argv)]"
    using es ts by (simp add: pools_append progress_read job_event_no_pool)
  moreover have "1 \<le> min (cpu_count w) (length argv)"
    using assms(3,4) by simp
  ultimately show ?thesis by (simp add: PROCESSES_def)
qed

theorem pool_size_is_min_witness:
  "io_ok example_host
   \<and> list_all (acceptable example_host) [''a.ufo'', ''b.ufo'', ''c.ufo'', ''d.ufo'', ''e.ufo'']
   \<and> 0 < cpu_count example_host
   \<and> pools (out (snd (script example_host
                         [''a.ufo'', ''b.ufo'', ''c.ufo'', ''d.ufo'', ''e.ufo'']))) = [4]
   \<and> pools (out (snd (script exiting_host [''b.ufo'', ''a.ufo'']))) = [2]"
proof -
  have h1: "io_ok example_host" by (rule example_host_io_ok)
  have h2: "list_all (acceptable example_host)
              [''a.ufo'', ''b.ufo'', ''c.ufo'', ''d.ufo'', ''e.ufo'']"
    by (simp add: acceptable_def malformed_def suffix_ufo example_host_def)
  have h3: "2 \<le> length [''a.ufo'', ''b.ufo'', ''c.ufo'', ''d.ufo'', ''e.ufo'']" by simp
  have h4: "0 < cpu_count example_host" by (simp add: example_host_def)
  have g1: "io_ok exiting_host" by (simp add: io_ok_def exiting_host_def example_host_def)
  have g2: "list_all (acceptable exiting_host) [''b.ufo'', ''a.ufo'']"
    by (simp add: acceptable_def malformed_def suffix_ufo exiting_host_def example_host_def)
  have g3: "2 \<le> length [''b.ufo'', ''a.ufo'']" by simp
  have g4: "0 < cpu_count exiting_host" by (simp add: exiting_host_def example_host_def)
  have c: "cpu_count example_host = 4" "cpu_count exiting_host = 4"
    by (simp_all add: exiting_host_def example_host_def)
  show ?thesis
    using h1 h2 h4 pool_size_is_min [OF h1 h2 h3 h4] pool_size_is_min [OF g1 g2 g3 g4]
    by (simp add: c)
qed





text \<open>
  C8 (streams). In a run of a non-empty list of acceptable paths, on a host with at least
  one core, working streams and a compiler whose failures are instances of \<^verbatim>\<open>Exception\<close>,
  the only events on standard error are the tracebacks of the failing jobs: every
  progress line is on standard output, and so are the \<^verbatim>\<open>[ERROR]\<close> line and the message of
  each failing job.
\<close>

theorem diagnostic_streams:
  assumes "io_ok w" and "argv \<noteq> []" and "list_all (acceptable w) argv"
    and "0 < cpu_count w" and "fails_with_Exception w argv"
  shows "stderr_events (out (snd (script w argv)))
         = map Traceback (List.map_filter (run_from_ufos w) argv)
         \<and> (\<forall>p \<in> set argv. \<forall>e. run_from_ufos w p = Some e \<longrightarrow>
              {''[ERROR] The fontmake compile for '' @ p
               @ '' failed with the following error:'' @ linesep, str e}
              \<subseteq> set (stdout_lines (out (snd (script w argv)))))"
proof -
  have "stderr_events (out (snd (script w argv)))
        = map Traceback (List.map_filter (run_from_ufos w) argv)"
    unfolding script_dispatch [OF assms]
    by (simp add: stderr_events_append progress_read stderr_events_all [OF assms(5)])
  moreover have "{''[ERROR] The fontmake compile for '' @ p
               @ '' failed with the following error:'' @ linesep, str e}
              \<subseteq> set (stdout_lines (out (snd (script w argv))))"
    if p: "p \<in> set argv" and e: "run_from_ufos w p = Some e" for p e
  proof -
    from assms(5) p e have "is_Exception e"
      by (auto simp: fails_with_Exception_def list_all_iff)
    from stdout_lines_all [OF p e this]
    show ?thesis
      unfolding script_dispatch [OF assms]
      by (auto simp: stdout_lines_append stdout_lines_diagnostic)
  qed
  ultimately show ?thesis by blast
qed

theorem diagnostic_streams_witness:
  "io_ok example_host \<and> [''a.ufo'', ''b.ufo''] \<noteq> []
   \<and> list_all (acceptable example_host) [''a.ufo'', ''b.ufo'']
   \<and> 0 < cpu_count example_host
   \<and> fails_with_Exception example_host [''a.ufo'', ''b.ufo'']
   \<and> run_from_ufos example_host ''b.ufo'' = Some (Error ''FontmakeError'' ''bad glyph'')
   \<and> stderr_events (out (snd (script example_host [''a.ufo'', ''b.ufo''])))
     = [Traceback (Error ''FontmakeError'' ''bad glyph'')]
   \<and> ''bad glyph'' \<in> set (stdout_lines (out (snd (script example_host [''a.ufo'', ''b.ufo'']))))"
proof -
  have h1: "io_ok example_host" by (rule example_host_io_ok)
  have h2: "[''a.ufo'', ''b.ufo''] \<noteq> []" by simp
  have h3: "list_all (acceptable example_host) [''a.ufo'', ''b.ufo'']"
    by (simp add: acceptable_def malformed_def suffix_ufo example_host_def)
  have h4: "0 < cpu_count example_host" by (simp add: example_host_def)
  have h5: "fails_with_Exception example_host [''a.ufo'', ''b.ufo'']"
    by (simp add: fails_with_Exception_def example_host_def)
  have h6: "run_from_ufos example_host ''b.ufo'' = Some (Error ''FontmakeError'' ''bad glyph'')"
    by (simp add: example_host_def)
  have m: "List.map_filter (run_from_ufos example_host) [''a.ufo'', ''b.ufo'']
           = [Error ''FontmakeError'' ''bad glyph'']"
    by (simp add: List.map_filter_simps example_host_def)
  note t = diagnostic_streams [OF h1 h2 h3 h4 h5, unfolded m]
  from t have "str (Error ''FontmakeError'' ''bad glyph'')
      \<in> set (stdout_lines (out (snd (script example_host [''a.ufo'', ''b.ufo'']))))"
    using h6 by auto
  with t h1 h3 h4 h5 h6 show ?thesis by simp
qed

text \<open>
  The diagnostic of a failing job is not all on standard error: its \<^verbatim>\<open>[ERROR]\<close> line
  and its message are lines of standard output.
\<close>

theorem job_diagnostic_on_stdout:
  "stdout_lines (out (snd (build_fonts example_host ''b.ufo'' init)))
   = ['' '',
      ''[ERROR] The fontmake compile for b.ufo failed with the following error:'' @ linesep,
      ''bad glyph'']
   \<and> stderr_events (out (snd (build_fonts example_host ''b.ufo'' init)))
     = [Traceback (Error ''FontmakeError'' ''bad glyph'')]"
  by code_simp

text \<open>
  C9 (rejected paths). When the streams work, the first argument is not a help, version
  or usage flag and some path is malformed or is not a directory, the run writes one
  non-empty text on standard error and nothing else, so that no job is run, and exits
  with status 1.
\<close>

theorem bad_path_rejected:
  assumes "io_ok w" and "\<not> is_flag (hd argv)"
    and "p \<in> set argv" and "malformed p \<or> \<not> isdir w p"
  shows "\<exists>m. m \<noteq> [] \<and> script w argv = (Some 1, \<lparr>out = [Stderr m], lock_held = False\<rparr>)"
proof -
  have ne: "argv \<noteq> []" using assms(3) by auto
  have "\<not> acceptable w p" using assms(4) by (auto simp: acceptable_def)
  with assms(3) have "\<not> list_all (acceptable w) argv" by (auto simp: list_all_iff)
  from main_rejects [OF assms(1) ne assms(2) this]
  show ?thesis by (auto simp: script_def)
qed

theorem bad_path_rejected_witness:
  "io_ok empty_disk_host \<and> \<not> is_flag (hd [''a.ufo'', ''b.uf''])
   \<and> ''b.uf'' \<in> set [''a.ufo'', ''b.uf''] \<and> malformed ''b.uf''
   \<and> \<not> isdir empty_disk_host ''a.ufo''
   \<and> (\<exists>m. m \<noteq> [] \<and> script empty_disk_host [''a.ufo'', ''b.uf'']
                     = (Some 1, \<lparr>out = [Stderr m], lock_held = False\<rparr>))"
proof -
  have h1: "io_ok empty_disk_host"
    by (simp add: io_ok_def empty_disk_host_def example_host_def)
  have h2: "\<not> is_flag (hd [''a.ufo'', ''b.uf''])" by (simp add: is_flag_def)
  have h3: "''b.uf'' \<in> set [''a.ufo'', ''b.uf'']" by simp
  have h4: "malformed ''b.uf''" by (simp add: malformed_def)
  have h5: "\<not> isdir empty_disk_host ''a.ufo''"
    by (simp add: empty_disk_host_def example_host_def)
  from h4 have h4': "malformed ''b.uf'' \<or> \<not> isdir empty_disk_host ''b.uf''" by simp
  show ?thesis
    using h1 h2 h3 h4 h5 bad_path_rejected [OF h1 h2 h3 h4'] by blast
qed

text \<open>
  C10 (the check of an empty list). On the empty list \<^verbatim>\<open>main\<close> raises \<^verbatim>\<open>IndexError\<close> at
  \<^verbatim>\<open>argv[0]\<close>, before anything else. The check of an empty list would write
  \<open>empty_list_report\<close> and exit with status 1, but no run of \<^verbatim>\<open>main\<close> ever writes it.
\<close>

theorem empty_list_check_unreachable:
  "main w [] s = (Raise IndexError, s)
   \<and> check_not_empty w [] = block [emit w empty_list_report, sys_exit 1]
   \<and> empty_list_report \<notin> set (out (snd (main w argv init)))"
proof -
  have "main w [] s = (Raise IndexError, s)" for s
    by (simp add: main_def raise_def)
  moreover have "check_not_empty w [] = block [emit w empty_list_report, sys_exit 1]"
    by (simp add: check_not_empty_def stderr_write_def empty_list_report_def)
  moreover have "empty_list_report \<notin> set (out (snd (main w argv init)))"
  proof (cases "argv = []")
    case True
    then show ?thesis by (simp add: main_def raise_def init_def)
  next
    case False
    from only_emits_main [OF False, of w]
    obtain es where "out (snd (main w argv init)) = out init @ es"
      "list_all (\<lambda>e. e \<noteq> empty_list_report) es"
      unfolding only_emits_def by blast
    then show ?thesis by (auto simp: init_def list_all_iff)
  qed
  ultimately show ?thesis by blast
qed

theorem empty_list_check_unreachable_witness:
  "main example_host [] init = (Raise IndexError, init)
   \<and> empty_list_report \<notin> set (out (snd (main example_host [''a.ufo''] init)))"
  using empty_list_check_unreachable [of example_host init "[''a.ufo'']"] by simp

end
